theory Spec2Isabelle
  imports Main "HOL-Library.Word"
begin

section \<open>The custom action WixRemoveRegistryKeyEx\<close>

text \<open>
  The repository's only source file, \<^verbatim>\<open>src/ext/ca/wixca/dll/RemoveRegistryKeyEx.cpp\<close>,
  holds one function, \<^verbatim>\<open>WixRemoveRegistryKeyEx\<close>. It talks to the installer engine
  through the calls \<^verbatim>\<open>WcaInitialize\<close>, \<^verbatim>\<open>WcaTableExists\<close>, \<^verbatim>\<open>WcaOpenExecuteView\<close>,
  \<^verbatim>\<open>WcaFetchRecord\<close>, \<^verbatim>\<open>WcaGetRecordString\<close>, \<^verbatim>\<open>WcaGetRecordInteger\<close>,
  \<^verbatim>\<open>MsiEvaluateConditionW\<close>, \<^verbatim>\<open>WcaAddTempRecord\<close>, \<^verbatim>\<open>WcaLog\<close>, \<^verbatim>\<open>MsiCloseHandle\<close> and
  \<^verbatim>\<open>WcaFinalize\<close>, none of which is defined in the file. The embedding takes what these
  calls return as parameters (the record \<open>engine\<close> below) and writes every call the
  function makes, with its arguments and its result, to a list of events kept in the
  function's state. All statements are then about the function's control flow: which
  calls it makes, in which order, with which arguments, and which status it hands to
  \<^verbatim>\<open>WcaFinalize\<close>.
\<close>

subsection \<open>Machine types, constants and macros of the headers\<close>

text \<open>
  Modelled from the spec: the header \<^verbatim>\<open>precomp.h\<close> and what it pulls in are not part of
  the source tree given. \<^verbatim>\<open>HRESULT\<close> is a signed 32-bit status, \<^verbatim>\<open>MSIHANDLE\<close> an unsigned
  32-bit handle with \<^verbatim>\<open>NULL\<close> as 0, \<^verbatim>\<open>FAILED\<close> and \<^verbatim>\<open>SUCCEEDED\<close> test the sign of a status,
  \<^verbatim>\<open>E_NOMOREITEMS\<close> is the end-of-data status of a cursor, and the process-level result is
  success or the generic installation failure. The numeric values are those of the
  Windows headers; the theorems use only that \<^verbatim>\<open>S_OK\<close> is not a failure, that
  \<^verbatim>\<open>E_NOMOREITEMS\<close> is one, and that the two result codes differ.
\<close>

type_synonym hresult = "32 word"
type_synonym msihandle = "32 word"
type_synonym dword = "32 word"

text \<open>An \<^verbatim>\<open>LPWSTR\<close>: \<open>None\<close> is the \<^verbatim>\<open>NULL\<close> pointer, \<open>Some cs\<close> a pointer to the characters
  \<open>cs\<close> followed by the terminator.\<close>

type_synonym lpwstr = "string option"

definition S_OK :: hresult where
  "S_OK = 0"

definition E_NOMOREITEMS :: hresult where
  "E_NOMOREITEMS = 0x80070103"

definition FAILED :: "hresult \<Rightarrow> bool" where
  "FAILED h = (sint h < 0)"

definition SUCCEEDED :: "hresult \<Rightarrow> bool" where
  "SUCCEEDED h = (0 \<le> sint h)"

definition ERROR_SUCCESS :: dword where
  "ERROR_SUCCESS = 0"

definition ERROR_INSTALL_FAILURE :: dword where
  "ERROR_INSTALL_FAILURE = 1603"

text \<open>Modelled from the spec: the result type of the condition evaluator, declared in the
  engine's headers. The spec's outcome ``Invalid'' is every value that is neither
  \<^verbatim>\<open>MSICONDITION_TRUE\<close> nor \<^verbatim>\<open>MSICONDITION_FALSE\<close>.\<close>

datatype MSICONDITION =
    MSICONDITION_FALSE
  | MSICONDITION_TRUE
  | MSICONDITION_NONE
  | MSICONDITION_ERROR

text \<open>Line 7: the columns of the query, numbered from 1.\<close>

datatype eRemoveRegistryKeyExQuery =
    rrxqId
  | rrxqComponent
  | rrxqRoot
  | rrxqKey
  | rrxqMode
  | rrxqCondition

subsection \<open>The engine as seen by the function\<close>

text \<open>An argument of a variadic call: a string pointer (possibly \<^verbatim>\<open>NULL\<close>) or an \<^verbatim>\<open>int\<close>.\<close>

datatype vararg =
    ArgStr lpwstr
  | ArgInt "32 word"

text \<open>
  A fetched record, as the function can observe it: for each column, the status and the
  value that the accessor called on that column (\<^verbatim>\<open>WcaGetRecordString\<close> for the strings,
  \<^verbatim>\<open>WcaGetRecordInteger\<close> for \<^verbatim>\<open>Root\<close> and \<^verbatim>\<open>InstallMode\<close>) hands back. The result of an
  accessor is taken to depend on the record and the column only.
\<close>

record msi_rec =
  fId :: "hresult \<times> lpwstr"
  fComponent :: "hresult \<times> lpwstr"
  fRoot :: "hresult \<times> 32 word"
  fKey :: "hresult \<times> lpwstr"
  fMode :: "hresult \<times> 32 word"
  fCondition :: "hresult \<times> lpwstr"

text \<open>
  An executed view is the list of results of the successive calls of \<^verbatim>\<open>WcaFetchRecord\<close>:
  a status and the record handed back with it. Once the list is used up the cursor
  answers \<^verbatim>\<open>E_NOMOREITEMS\<close>.
\<close>

type_synonym view = "(hresult \<times> msi_rec) list"

text \<open>
  What the engine answers. \<^verbatim>\<open>WcaAddTempRecord\<close> receives the two handles by reference, the
  table name, the column count and the values (its arguments \<^verbatim>\<open>pdbError\<close> and
  \<^verbatim>\<open>uiUniquifyColumn\<close> are \<^verbatim>\<open>NULL\<close> and 0 at both call sites), and answers a status and the
  handles' new values.
\<close>

record engine =
  WcaInitialize :: hresult
  WcaTableExists :: hresult
  WcaOpenExecuteView :: "hresult \<times> view"
  MsiEvaluateConditionW :: "string \<Rightarrow> MSICONDITION"
  WcaAddTempRecord ::
    "msihandle \<times> msihandle \<Rightarrow> string \<Rightarrow> nat \<Rightarrow> vararg list \<Rightarrow> hresult \<times> msihandle \<times> msihandle"
  WcaFinalize :: "dword \<Rightarrow> dword"

text \<open>Every call the function makes on the engine is recorded with its result.
  \<open>EvExitTrace\<close> is the message an \<^verbatim>\<open>ExitOnFailure\<close> traces before it jumps to \<^verbatim>\<open>LExit\<close>.\<close>

datatype event =
    EvInitialize hresult
  | EvTableExists hresult
  | EvOpenExecuteView hresult
  | EvFetchRecord hresult
  | EvGetRecordString eRemoveRegistryKeyExQuery hresult
  | EvGetRecordInteger eRemoveRegistryKeyExQuery hresult
  | EvEvaluateCondition string MSICONDITION
  | EvAddTempRecord string nat "vararg list" hresult
  | EvLog string "vararg list"
  | EvExitTrace hresult string "vararg list"
  | EvCloseHandle msihandle
  | EvFinalize dword

subsection \<open>The function's local variables\<close>

text \<open>Lines 15 to 25, and the list of calls made so far. \<^verbatim>\<open>hView\<close> and \<^verbatim>\<open>hRec\<close> are
  passed as arguments below; the heap buffers behind the strings are not modelled, so
  the \<^verbatim>\<open>ReleaseStr\<close> calls of lines 107 to 110 leave no event.\<close>

record locals =
  hr :: hresult
  sczId :: lpwstr
  sczComponent :: lpwstr
  sczCondition :: lpwstr
  sczKey :: lpwstr
  iRoot :: "32 word"
  iMode :: "32 word"
  hTable :: msihandle
  hColumns :: msihandle
  calls :: "event list"

definition init_locals :: locals where
  "init_locals =
     \<lparr>hr = S_OK, sczId = None, sczComponent = None, sczCondition = None, sczKey = None,
      iRoot = 0, iMode = 0, hTable = 0, hColumns = 0, calls = []\<rparr>"

definition emit :: "event \<Rightarrow> locals \<Rightarrow> locals" where
  "emit e s = s\<lparr>calls := calls s @ [e]\<rparr>"

text \<open>Where control goes after a piece of the function: on to the next statement (or,
  inside the loop, to the next fetch), or to the label \<^verbatim>\<open>LExit\<close>.\<close>

datatype flow = Fallthrough | GotoLExit

subsection \<open>The loop body, lines 42 to 86\<close>

text \<open>Line 48, \<^verbatim>\<open>sczCondition && *sczCondition\<close>: the text to evaluate, when the
  pointer is not \<^verbatim>\<open>NULL\<close> and its first character is not the terminator.\<close>

definition condition_text :: "lpwstr \<Rightarrow> string option" where
  "condition_text p =
     (case p of None \<Rightarrow> None | Some cs \<Rightarrow> if cs = [] then None else Some cs)"

text \<open>Lines 74 to 86: the switch on \<^verbatim>\<open>iMode\<close>.\<close>

definition switch_iMode :: "engine \<Rightarrow> locals \<Rightarrow> flow \<times> locals" where
  "switch_iMode env s =
     (if iMode s = 1 then
        (let args = [ArgStr (sczId s), ArgInt (iRoot s), ArgStr (sczKey s), ArgStr (Some ''-''),
                     ArgStr (sczComponent s)];
             s1 = emit (EvLog ''Adding RemoveRegistry row: %ls/%d/%ls/-/%ls''
                          [ArgStr (sczId s), ArgInt (iRoot s), ArgStr (sczKey s),
                           ArgStr (sczComponent s)]) s;
             (h, t, c) = WcaAddTempRecord env (hTable s1, hColumns s1) ''RemoveRegistry'' 5 args;
             s2 = emit (EvAddTempRecord ''RemoveRegistry'' 5 args h)
                    (s1\<lparr>hr := h, hTable := t, hColumns := c\<rparr>)
         in if FAILED h then
              (GotoLExit,
               emit (EvExitTrace h
                 ''Failed to add RemoveRegistry row for remove-on-install WixRemoveRegistryKeyEx row: %ls:''
                 [ArgStr (sczId s)]) s2)
            else (Fallthrough, s2))
      else if iMode s = 2 then
        (let args = [ArgStr (sczId s), ArgInt (iRoot s), ArgStr (sczKey s), ArgStr (Some ''-''),
                     ArgStr None, ArgStr (sczComponent s)];
             s1 = emit (EvLog ''Adding Registry row: %ls/%d/%ls/-/null/%ls''
                          [ArgStr (sczId s), ArgInt (iRoot s), ArgStr (sczKey s),
                           ArgStr (sczComponent s)]) s;
             (h, t, c) = WcaAddTempRecord env (hTable s1, hColumns s1) ''Registry'' 6 args;
             s2 = emit (EvAddTempRecord ''Registry'' 6 args h)
                    (s1\<lparr>hr := h, hTable := t, hColumns := c\<rparr>)
         in if FAILED h then
              (GotoLExit,
               emit (EvExitTrace h
                 ''Failed to add Registry row for remove-on-uninstall WixRemoveRegistryKeyEx row: %ls:''
                 [ArgStr (sczId s)]) s2)
            else (Fallthrough, s2))
      else (Fallthrough, s))"

text \<open>Lines 62 to 86: the four remaining columns are read, then the switch runs.\<close>

definition translate_record :: "engine \<Rightarrow> msi_rec \<Rightarrow> locals \<Rightarrow> flow \<times> locals" where
  "translate_record env hRec s =
     (let (h1, v1) = fComponent hRec;
          s1 = emit (EvGetRecordString rrxqComponent h1) (s\<lparr>hr := h1, sczComponent := v1\<rparr>)
      in if FAILED h1 then
           (GotoLExit, emit (EvExitTrace h1 ''Failed to get WixRemoveRegistryKeyEx component.'' []) s1)
         else
     (let (h2, v2) = fRoot hRec;
          s2 = emit (EvGetRecordInteger rrxqRoot h2) (s1\<lparr>hr := h2, iRoot := v2\<rparr>)
      in if FAILED h2 then
           (GotoLExit, emit (EvExitTrace h2 ''Failed to get WixRemoveRegistryKeyEx root.'' []) s2)
         else
     (let (h3, v3) = fKey hRec;
          s3 = emit (EvGetRecordString rrxqKey h3) (s2\<lparr>hr := h3, sczKey := v3\<rparr>)
      in if FAILED h3 then
           (GotoLExit, emit (EvExitTrace h3 ''Failed to get WixRemoveRegistryKeyEx key.'' []) s3)
         else
     (let (h4, v4) = fMode hRec;
          s4 = emit (EvGetRecordInteger rrxqMode h4) (s3\<lparr>hr := h4, iMode := v4\<rparr>)
      in if FAILED h4 then
           (GotoLExit, emit (EvExitTrace h4 ''Failed to get WixRemoveRegistryKeyEx mode.'' []) s4)
         else switch_iMode env s4))))"

text \<open>Lines 42 to 60, followed by the rest of the body: the identity and the condition
  are read, a non-empty condition is evaluated, and a condition that is not true sends
  control back to the head of the loop (\<^verbatim>\<open>continue\<close>).\<close>

definition process_record :: "engine \<Rightarrow> msi_rec \<Rightarrow> locals \<Rightarrow> flow \<times> locals" where
  "process_record env hRec s =
     (let (h1, v1) = fId hRec;
          s1 = emit (EvGetRecordString rrxqId h1) (s\<lparr>hr := h1, sczId := v1\<rparr>)
      in if FAILED h1 then
           (GotoLExit, emit (EvExitTrace h1 ''Failed to get WixRemoveRegistryKeyEx identity.'' []) s1)
         else
     (let (h2, v2) = fCondition hRec;
          s2 = emit (EvGetRecordString rrxqCondition h2) (s1\<lparr>hr := h2, sczCondition := v2\<rparr>)
      in if FAILED h2 then
           (GotoLExit, emit (EvExitTrace h2 ''Failed to get WixRemoveRegistryKeyEx condition.'' []) s2)
         else
     (case condition_text (sczCondition s2) of
        Some c \<Rightarrow>
          (let condition = MsiEvaluateConditionW env c;
               s3 = emit (EvEvaluateCondition c condition) s2
           in if MSICONDITION_TRUE = condition then
                translate_record env hRec
                  (emit (EvLog ''True condition for row %S: %S; processing.''
                           [ArgStr (sczId s3), ArgStr (sczCondition s3)]) s3)
              else
                (Fallthrough,
                 emit (EvLog ''False or invalid condition for row %S: %S; skipping.''
                         [ArgStr (sczId s3), ArgStr (sczCondition s3)]) s3))
      | None \<Rightarrow> translate_record env hRec s2)))"

subsection \<open>The loop, line 40\<close>

text \<open>Each round fetches; a status other than \<^verbatim>\<open>S_OK\<close> leaves the loop with that status
  in \<^verbatim>\<open>hr\<close>.\<close>

fun fetch_loop :: "engine \<Rightarrow> view \<Rightarrow> locals \<Rightarrow> flow \<times> locals" where
  "fetch_loop env [] s = (Fallthrough, emit (EvFetchRecord E_NOMOREITEMS) (s\<lparr>hr := E_NOMOREITEMS\<rparr>))"
| "fetch_loop env ((h, hRec) # rest) s =
     (let s1 = emit (EvFetchRecord h) (s\<lparr>hr := h\<rparr>)
      in if S_OK = h then
           (case process_record env hRec s1 of
              (GotoLExit, s2) \<Rightarrow> (GotoLExit, s2)
            | (Fallthrough, s2) \<Rightarrow> fetch_loop env rest s2)
         else (Fallthrough, s1))"

subsection \<open>The function\<close>

text \<open>Lines 96 to 113: the two staging handles are closed when set, and the status is
  mapped to the process-level result handed to \<^verbatim>\<open>WcaFinalize\<close>.\<close>

definition LExit :: "engine \<Rightarrow> locals \<Rightarrow> dword \<times> locals" where
  "LExit env s =
     (let s1 = (if hColumns s \<noteq> 0 then emit (EvCloseHandle (hColumns s)) s else s);
          s2 = (if hTable s1 \<noteq> 0 then emit (EvCloseHandle (hTable s1)) s1 else s1);
          er = (if SUCCEEDED (hr s2) then ERROR_SUCCESS else ERROR_INSTALL_FAILURE)
      in (WcaFinalize env er, emit (EvFinalize er) s2))"

text \<open>Lines 89 to 94, reached when the loop is left by its condition, and the jump to
  \<^verbatim>\<open>LExit\<close> otherwise.\<close>

definition after_loop :: "engine \<Rightarrow> flow \<times> locals \<Rightarrow> dword \<times> locals" where
  "after_loop env fs =
     (case fs of
        (GotoLExit, s) \<Rightarrow> LExit env s
      | (Fallthrough, s) \<Rightarrow>
          (let s1 = (if E_NOMOREITEMS = hr s then s\<lparr>hr := S_OK\<rparr> else s)
           in if FAILED (hr s1) then
                LExit env
                  (emit (EvExitTrace (hr s1)
                     ''Failure occured while processing WixRemoveRegistryKeyEx table.'' []) s1)
              else LExit env s1))"

text \<open>Lines 27 to 40.\<close>

definition WixRemoveRegistryKeyEx :: "engine \<Rightarrow> dword \<times> locals" where
  "WixRemoveRegistryKeyEx env =
     (let h0 = WcaInitialize env;
          s0 = emit (EvInitialize h0) (init_locals\<lparr>hr := h0\<rparr>)
      in if FAILED h0 then
           LExit env (emit (EvExitTrace h0 ''Failed to initialize WixRemoveRegistryKeyEx'' []) s0)
         else
     (let e = WcaTableExists env;
          s1 = emit (EvTableExists e) s0
      in if S_OK \<noteq> e then
           LExit env
             (emit (EvLog (''WixRemoveRegistryKeyEx table doesn'' @ [CHR 0x27] @
                           ''t exist, so there are no registry keys to remove.'') []) s1)
         else
     (let (h2, hView) = WcaOpenExecuteView env;
          s2 = emit (EvOpenExecuteView h2) (s1\<lparr>hr := h2\<rparr>)
      in if FAILED h2 then
           LExit env
             (emit (EvExitTrace h2 ''Failed to open view on WixRemoveRegistryKeyEx table'' []) s2)
         else after_loop env (fetch_loop env hView s2))))"

subsection \<open>Reading the list of calls\<close>

text \<open>The staging-table interactions are the calls of \<^verbatim>\<open>WcaAddTempRecord\<close> and the closing
  of the staging handles; the rows appended are the calls of \<^verbatim>\<open>WcaAddTempRecord\<close> that
  did not fail, each with its table, its column count and its values.\<close>

fun is_staging :: "event \<Rightarrow> bool" where
  "is_staging (EvAddTempRecord t n a h) = True"
| "is_staging (EvCloseHandle x) = True"
| "is_staging e = False"

fun appended_row :: "event \<Rightarrow> (string \<times> nat \<times> vararg list) list" where
  "appended_row (EvAddTempRecord t n a h) = (if FAILED h then [] else [(t, n, a)])"
| "appended_row e = []"

definition appended :: "event list \<Rightarrow> (string \<times> nat \<times> vararg list) list" where
  "appended es = concat (map appended_row es)"

fun is_log :: "event \<Rightarrow> bool" where
  "is_log (EvLog m a) = True"
| "is_log e = False"

fun is_evaluation :: "event \<Rightarrow> bool" where
  "is_evaluation (EvEvaluateCondition c r) = True"
| "is_evaluation e = False"

fun is_error :: "event \<Rightarrow> bool" where
  "is_error (EvExitTrace h m a) = True"
| "is_error e = False"

fun column_read :: "event \<Rightarrow> eRemoveRegistryKeyExQuery list" where
  "column_read (EvGetRecordString c h) = [c]"
| "column_read (EvGetRecordInteger c h) = [c]"
| "column_read e = []"

definition columns_read :: "event list \<Rightarrow> eRemoveRegistryKeyExQuery list" where
  "columns_read es = concat (map column_read es)"

fun finalized :: "event \<Rightarrow> dword list" where
  "finalized (EvFinalize er) = [er]"
| "finalized e = []"

text \<open>The statuses handed to \<^verbatim>\<open>WcaFinalize\<close>, in order.\<close>

definition reported :: "event list \<Rightarrow> dword list" where
  "reported es = concat (map finalized es)"

fun is_close :: "event \<Rightarrow> bool" where
  "is_close (EvCloseHandle k) = True"
| "is_close e = False"

text \<open>A call of \<^verbatim>\<open>WcaAddTempRecord\<close> that failed.\<close>

fun failed_add :: "event \<Rightarrow> bool" where
  "failed_add (EvAddTempRecord t n a h) = FAILED h"
| "failed_add e = False"

text \<open>A list of calls that ends with a failed \<^verbatim>\<open>WcaAddTempRecord\<close> of status \<open>h\<close> and the
  trace of the \<^verbatim>\<open>ExitOnFailure\<close> after it, with no failed one before.\<close>

definition add_abort :: "hresult \<Rightarrow> event list \<Rightarrow> bool" where
  "add_abort h evs =
     (\<exists>es t n a m x. evs = es @ [EvAddTempRecord t n a h, EvExitTrace h m x] \<and>
        filter failed_add es = [])"

text \<open>The calls of lines 97 to 105.\<close>

definition handle_closes :: "locals \<Rightarrow> event list" where
  "handle_closes s =
     (if hColumns s \<noteq> 0 then [EvCloseHandle (hColumns s)] else []) @
     (if hTable s \<noteq> 0 then [EvCloseHandle (hTable s)] else [])"

text \<open>The state in which line 40 is reached.\<close>

definition loop_entry :: "engine \<Rightarrow> locals" where
  "loop_entry env =
     emit (EvOpenExecuteView (fst (WcaOpenExecuteView env)))
       (emit (EvTableExists (WcaTableExists env))
          (emit (EvInitialize (WcaInitialize env)) (init_locals\<lparr>hr := WcaInitialize env\<rparr>))
        \<lparr>hr := fst (WcaOpenExecuteView env)\<rparr>)"

text \<open>The same engine with another content of the rule table.\<close>

definition with_view :: "engine \<Rightarrow> view \<Rightarrow> engine" where
  "with_view env v = env\<lparr>WcaOpenExecuteView := (fst (WcaOpenExecuteView env), v)\<rparr>"

subsection \<open>Properties of a rule\<close>

text \<open>A rule is applicable when its condition is absent or empty, or evaluates to true.\<close>

definition applicable :: "engine \<Rightarrow> msi_rec \<Rightarrow> bool" where
  "applicable env r =
     (case condition_text (snd (fCondition r)) of
        None \<Rightarrow> True
      | Some c \<Rightarrow> MsiEvaluateConditionW env c = MSICONDITION_TRUE)"

text \<open>All six columns of the record can be read.\<close>

definition reads_ok :: "msi_rec \<Rightarrow> bool" where
  "reads_ok r =
     (\<not> FAILED (fst (fId r)) \<and> \<not> FAILED (fst (fCondition r)) \<and> \<not> FAILED (fst (fComponent r)) \<and>
      \<not> FAILED (fst (fRoot r)) \<and> \<not> FAILED (fst (fKey r)) \<and> \<not> FAILED (fst (fMode r)))"

text \<open>A column that the loop body reads on this record fails: the identity or the
  condition, or one of the other four when the rule is applicable.\<close>

definition fatal_read :: "engine \<Rightarrow> msi_rec \<Rightarrow> bool" where
  "fatal_read env r =
     (FAILED (fst (fId r)) \<or> FAILED (fst (fCondition r)) \<or>
      (applicable env r \<and>
       (FAILED (fst (fComponent r)) \<or> FAILED (fst (fRoot r)) \<or> FAILED (fst (fKey r)) \<or>
        FAILED (fst (fMode r)))))"

subsection \<open>Example engines and rules\<close>

text \<open>A failing status and a status that is neither \<^verbatim>\<open>S_OK\<close> nor a failure.\<close>

definition E_FAIL :: hresult where
  "E_FAIL = 0x80004005"

definition S_FALSE :: hresult where
  "S_FALSE = 1"

definition key_X :: string where
  "key_X = ''SOFTWARE'' @ [CHR 0x5C] @ ''X''"

definition key_Y :: string where
  "key_Y = ''SOFTWARE'' @ [CHR 0x5C] @ ''Y''"

text \<open>The two rules of the specification's scenarios.\<close>

definition rule_R1 :: msi_rec where
  "rule_R1 =
     \<lparr>fId = (S_OK, Some ''R1''), fComponent = (S_OK, Some ''C1''), fRoot = (S_OK, 2),
      fKey = (S_OK, Some key_X), fMode = (S_OK, 1), fCondition = (S_OK, Some [])\<rparr>"

definition rule_R2 :: msi_rec where
  "rule_R2 =
     \<lparr>fId = (S_OK, Some ''R2''), fComponent = (S_OK, Some ''C2''), fRoot = (S_OK, 0),
      fKey = (S_OK, Some key_Y), fMode = (S_OK, 2),
      fCondition = (S_OK, Some ''VersionNT >= 600'')\<rparr>"

text \<open>The second rule with a condition that is false, and with one that does not parse.\<close>

definition rule_false :: msi_rec where
  "rule_false = rule_R2\<lparr>fCondition := (S_OK, Some ''Installed'')\<rparr>"

definition rule_invalid :: msi_rec where
  "rule_invalid = rule_R2\<lparr>fCondition := (S_OK, Some ''((('')\<rparr>"

text \<open>A rule with a false condition on which no other column can be read.\<close>

definition rule_unreadable :: msi_rec where
  "rule_unreadable =
     \<lparr>fId = (S_OK, Some ''R2''), fComponent = (E_FAIL, None), fRoot = (E_FAIL, 0),
      fKey = (E_FAIL, None), fMode = (E_FAIL, 0), fCondition = (S_OK, Some ''Installed'')\<rparr>"

text \<open>The first rule with a mode that is neither 1 nor 2, with a key that cannot be read,
  and with an empty key and an empty component.\<close>

definition rule_mode3 :: msi_rec where
  "rule_mode3 = rule_R1\<lparr>fMode := (S_OK, 3)\<rparr>"

definition rule_no_key :: msi_rec where
  "rule_no_key = rule_R1\<lparr>fKey := (E_FAIL, None)\<rparr>"

definition rule_empty_key :: msi_rec where
  "rule_empty_key = rule_R1\<lparr>fComponent := (S_OK, Some []), fKey := (S_OK, Some [])\<rparr>"

definition example_condition :: "string \<Rightarrow> MSICONDITION" where
  "example_condition c =
     (if c = ''VersionNT >= 600'' then MSICONDITION_TRUE
      else if c = ''Installed'' then MSICONDITION_FALSE
      else MSICONDITION_ERROR)"

definition add_succeeds ::
    "msihandle \<times> msihandle \<Rightarrow> string \<Rightarrow> nat \<Rightarrow> vararg list \<Rightarrow> hresult \<times> msihandle \<times> msihandle" where
  "add_succeeds hs t n a = (S_OK, 1, 2)"

definition add_fails_on_Registry ::
    "msihandle \<times> msihandle \<Rightarrow> string \<Rightarrow> nat \<Rightarrow> vararg list \<Rightarrow> hresult \<times> msihandle \<times> msihandle" where
  "add_fails_on_Registry hs t n a =
     (if t = ''Registry'' then (E_FAIL, fst hs, snd hs) else (S_OK, 1, 2))"

definition example_engine :: "view \<Rightarrow> engine" where
  "example_engine v =
     \<lparr>WcaInitialize = S_OK, WcaTableExists = S_OK, WcaOpenExecuteView = (S_OK, v),
      MsiEvaluateConditionW = example_condition, WcaAddTempRecord = add_succeeds,
      WcaFinalize = id\<rparr>"

definition failing_engine :: "view \<Rightarrow> engine" where
  "failing_engine v = (example_engine v)\<lparr>WcaAddTempRecord := add_fails_on_Registry\<rparr>"

definition absent_engine :: engine where
  "absent_engine = (example_engine [])\<lparr>WcaTableExists := S_FALSE\<rparr>"

text \<open>The rows that the two scenarios expect.\<close>

definition row_R1 :: "string \<times> nat \<times> vararg list" where
  "row_R1 =
     (''RemoveRegistry'', 5,
      [ArgStr (Some ''R1''), ArgInt 2, ArgStr (Some key_X), ArgStr (Some ''-''),
       ArgStr (Some ''C1'')])"

definition row_R2 :: "string \<times> nat \<times> vararg list" where
  "row_R2 =
     (''Registry'', 6,
      [ArgStr (Some ''R2''), ArgInt 0, ArgStr (Some key_Y), ArgStr (Some ''-''), ArgStr None,
       ArgStr (Some ''C2'')])"

text \<open>Tables used in the examples below.\<close>

definition aborting_engine :: engine where
  "aborting_engine = example_engine [(S_OK, rule_R1), (S_OK, rule_no_key), (S_OK, rule_R2)]"

definition skipping_engine :: engine where
  "skipping_engine = example_engine [(S_OK, rule_unreadable), (S_OK, rule_R1)]"

definition empty_key_engine :: engine where
  "empty_key_engine = example_engine [(S_OK, rule_empty_key)]"

definition mixed_engine :: engine where
  "mixed_engine = failing_engine [(S_OK, rule_R1), (S_OK, rule_R2), (S_OK, rule_R1)]"

text \<open>The calls of the pass on \<open>mixed_engine\<close> before the append that fails.\<close>

definition mixed_before :: "event list" where
  "mixed_before =
     [EvInitialize S_OK, EvTableExists S_OK, EvOpenExecuteView S_OK,
      EvFetchRecord S_OK, EvGetRecordString rrxqId S_OK, EvGetRecordString rrxqCondition S_OK,
      EvGetRecordString rrxqComponent S_OK, EvGetRecordInteger rrxqRoot S_OK,
      EvGetRecordString rrxqKey S_OK, EvGetRecordInteger rrxqMode S_OK,
      EvLog ''Adding RemoveRegistry row: %ls/%d/%ls/-/%ls''
        [ArgStr (Some ''R1''), ArgInt 2, ArgStr (Some key_X), ArgStr (Some ''C1'')],
      EvAddTempRecord ''RemoveRegistry'' 5 (snd (snd row_R1)) S_OK,
      EvFetchRecord S_OK, EvGetRecordString rrxqId S_OK, EvGetRecordString rrxqCondition S_OK,
      EvEvaluateCondition ''VersionNT >= 600'' MSICONDITION_TRUE,
      EvLog ''True condition for row %S: %S; processing.''
        [ArgStr (Some ''R2''), ArgStr (Some ''VersionNT >= 600'')],
      EvGetRecordString rrxqComponent S_OK, EvGetRecordInteger rrxqRoot S_OK,
      EvGetRecordString rrxqKey S_OK, EvGetRecordInteger rrxqMode S_OK,
      EvLog ''Adding Registry row: %ls/%d/%ls/-/null/%ls''
        [ArgStr (Some ''R2''), ArgInt 0, ArgStr (Some key_Y), ArgStr (Some ''C2'')]]"

text \<open>The calls after it.\<close>

definition mixed_after :: "event list" where
  "mixed_after =
     [EvExitTrace E_FAIL
        ''Failed to add Registry row for remove-on-uninstall WixRemoveRegistryKeyEx row: %ls:''
        [ArgStr (Some ''R2'')],
      EvCloseHandle 2, EvCloseHandle 1, EvFinalize ERROR_INSTALL_FAILURE]"

section \<open>Auxiliary facts\<close>

subsection \<open>Statuses and the list of calls\<close>

lemma SUCCEEDED_iff: "SUCCEEDED h = (\<not> FAILED h)"
  by (auto simp: SUCCEEDED_def FAILED_def)

lemma not_FAILED_S_OK: "\<not> FAILED S_OK"
  by (simp add: FAILED_def S_OK_def)

lemma FAILED_E_FAIL: "FAILED E_FAIL"
  by (simp add: FAILED_def E_FAIL_def)

lemma emit_fields:
  "calls (emit e s) = calls s @ [e]" "hr (emit e s) = hr s" "sczId (emit e s) = sczId s"
  "sczComponent (emit e s) = sczComponent s" "sczCondition (emit e s) = sczCondition s"
  "sczKey (emit e s) = sczKey s" "iRoot (emit e s) = iRoot s" "iMode (emit e s) = iMode s"
  "hTable (emit e s) = hTable s" "hColumns (emit e s) = hColumns s"
  by (simp_all add: emit_def)

lemma appended_append: "appended (xs @ ys) = appended xs @ appended ys"
  by (simp add: appended_def)

lemma appended_Nil: "appended [] = []"
  by (simp add: appended_def)

lemma appended_Cons: "appended (e # es) = appended_row e @ appended es"
  by (simp add: appended_def)

lemma is_close_not_failed_add: "is_close e \<Longrightarrow> \<not> failed_add e"
  by (cases e) simp_all

lemma is_close_appended_row: "is_close e \<Longrightarrow> appended_row e = []"
  by (cases e) simp_all

lemma with_view_fields:
  "MsiEvaluateConditionW (with_view env v) = MsiEvaluateConditionW env"
  "WcaAddTempRecord (with_view env v) = WcaAddTempRecord env"
  "WcaFinalize (with_view env v) = WcaFinalize env"
  "WcaInitialize (with_view env v) = WcaInitialize env"
  "WcaTableExists (with_view env v) = WcaTableExists env"
  "WcaOpenExecuteView (with_view env v) = (fst (WcaOpenExecuteView env), v)"
  by (simp_all add: with_view_def)

subsection \<open>The label LExit and the lines after the loop\<close>

lemma LExit_calls:
  "calls (snd (LExit env s)) =
     calls s @ handle_closes s @
     [EvFinalize (if FAILED (hr s) then ERROR_INSTALL_FAILURE else ERROR_SUCCESS)]"
  by (simp add: LExit_def handle_closes_def Let_def emit_fields SUCCEEDED_iff)

lemma LExit_fst:
  "fst (LExit env s) =
     WcaFinalize env (if FAILED (hr s) then ERROR_INSTALL_FAILURE else ERROR_SUCCESS)"
  by (simp add: LExit_def Let_def emit_fields SUCCEEDED_iff)

lemma handle_closes_close: "\<forall>e \<in> set (handle_closes s). is_close e"
  by (auto simp: handle_closes_def)

lemma handle_closes_no_failed_add: "filter failed_add (handle_closes s) = []"
  by (simp add: handle_closes_def)

lemma handle_closes_appended: "appended (handle_closes s) = []"
  by (simp add: handle_closes_def appended_def)

lemma handle_closes_reported: "reported (handle_closes s) = []"
  by (simp add: handle_closes_def reported_def)

lemma LExit_appended: "appended (calls (snd (LExit env s))) = appended (calls s)"
  by (simp add: LExit_calls appended_append handle_closes_appended appended_Cons appended_Nil)

lemma LExit_reported:
  "reported (calls (snd (LExit env s))) =
     reported (calls s) @ [if FAILED (hr s) then ERROR_INSTALL_FAILURE else ERROR_SUCCESS]"
  using handle_closes_reported [of s] by (simp add: LExit_calls reported_def)

lemma after_loop_GotoLExit: "after_loop env (GotoLExit, s) = LExit env s"
  by (simp add: after_loop_def)

lemma after_loop_appended: "appended (calls (snd (after_loop env (f, s)))) = appended (calls s)"
  by (cases f)
    (simp_all add: after_loop_def Let_def LExit_appended emit_fields appended_append appended_Cons
      appended_Nil)

lemma pass_scans:
  assumes "\<not> FAILED (WcaInitialize env)" "WcaTableExists env = S_OK"
    "\<not> FAILED (fst (WcaOpenExecuteView env))"
  shows "WixRemoveRegistryKeyEx env =
           after_loop env (fetch_loop env (snd (WcaOpenExecuteView env)) (loop_entry env))"
  using assms by (simp add: WixRemoveRegistryKeyEx_def loop_entry_def Let_def split_beta)

lemma loop_entry_with_view: "loop_entry (with_view env v) = loop_entry env"
  by (simp add: loop_entry_def with_view_fields)

lemma loop_entry_reported: "reported (calls (loop_entry env)) = []"
  by (simp add: loop_entry_def emit_fields init_locals_def reported_def)

subsection \<open>The loop body\<close>

lemma process_record_GotoLExit:
  "process_record env r s = (GotoLExit, s') \<Longrightarrow> FAILED (hr s')"
  by (auto simp: process_record_def translate_record_def switch_iMode_def
      Let_def emit_fields split_beta
      split: option.splits prod.splits if_splits)

lemma process_record_reported:
  "reported (calls (snd (process_record env r s))) = reported (calls s)"
  by (auto simp: process_record_def translate_record_def switch_iMode_def
      Let_def emit_fields reported_def split_beta
      split: option.splits prod.splits)

lemma translate_record_evaluations:
  "filter is_evaluation (calls (snd (translate_record env r s))) = filter is_evaluation (calls s)"
  by (auto simp: translate_record_def switch_iMode_def Let_def emit_fields split_beta
      split: prod.splits)

lemma fatal_read_aborts:
  assumes "fatal_read env r"
  shows "\<exists>s'. process_record env r s = (GotoLExit, s') \<and> FAILED (hr s') \<and>
           appended (calls s') = appended (calls s)"
  using assms
  by (auto simp: fatal_read_def applicable_def process_record_def translate_record_def
      Let_def emit_fields appended_append appended_Cons appended_Nil split_beta
      split: option.splits prod.splits)

lemma add_abort_prepend:
  "filter failed_add xs = [] \<Longrightarrow> add_abort h ys \<Longrightarrow> add_abort h (xs @ ys)"
  unfolding add_abort_def
  by (metis append_assoc filter_append self_append_conv)

lemma process_record_calls:
  assumes "process_record env r s = (f, s')"
  shows "\<exists>evs. calls s' = calls s @ evs \<and>
           (filter failed_add evs = [] \<or>
            (f = GotoLExit \<and> FAILED (hr s') \<and> add_abort (hr s') evs))"
proof -
  have "\<exists>evs. calls s' = calls s @ evs \<and>
           (filter failed_add evs = [] \<or>
            (f = GotoLExit \<and> FAILED (hr s') \<and>
             (\<exists>t n a m x. evs = butlast (butlast evs) @
                  [EvAddTempRecord t n a (hr s'), EvExitTrace (hr s') m x]) \<and>
                filter failed_add (butlast (butlast evs)) = []))"
    using assms
    by (auto simp: process_record_def translate_record_def switch_iMode_def
        Let_def emit_fields split_beta
        split: option.splits prod.splits if_splits)
  then show ?thesis unfolding add_abort_def by blast
qed

lemma switch_iMode_with_view: "switch_iMode (with_view env v) s = switch_iMode env s"
  by (simp add: switch_iMode_def with_view_fields)

lemma translate_record_with_view:
  "translate_record (with_view env v) r s = translate_record env r s"
  by (simp add: translate_record_def switch_iMode_with_view Let_def split_beta)

lemma process_record_with_view:
  "process_record (with_view env v) r s = process_record env r s"
  by (simp add: process_record_def translate_record_with_view Let_def split_beta with_view_fields
      split: option.splits)

subsection \<open>The loop\<close>

lemma fetch_loop_with_view: "fetch_loop (with_view env v) w s = fetch_loop env w s"
  by (induction w arbitrary: s)
    (auto simp: process_record_with_view Let_def split: prod.splits flow.splits)

lemma fetch_loop_reported:
  "reported (calls (snd (fetch_loop env v s))) = reported (calls s)"
proof (induction v arbitrary: s)
  case Nil
  show ?case by (simp add: emit_fields reported_def)
next
  case (Cons x v)
  obtain h r where x: "x = (h, r)" by (cases x)
  show ?case
  proof (cases "h = S_OK")
    case False
    then show ?thesis using x by (auto simp: emit_fields reported_def)
  next
    case True
    let ?s1 = "emit (EvFetchRecord S_OK) (s\<lparr>hr := S_OK\<rparr>)"
    obtain f s2 where p: "process_record env r ?s1 = (f, s2)"
      by (cases "process_record env r ?s1")
    have s2: "reported (calls s2) = reported (calls s)"
      using process_record_reported [of env r ?s1] p by (simp add: emit_fields reported_def)
    show ?thesis
    proof (cases f)
      case Fallthrough
      then show ?thesis using Cons.IH [of s2] p x True s2 by simp
    next
      case GotoLExit
      then show ?thesis using p x True s2 by simp
    qed
  qed
qed

text \<open>A record with a failing read, reached through records that were all fetched with
  \<^verbatim>\<open>S_OK\<close>, ends the loop with a jump; the rows appended are those of the records
  before it.\<close>

lemma fetch_loop_fatal_read:
  assumes pre: "\<forall>x \<in> set pre. fst x = S_OK"
    and fatal: "fatal_read env r"
  shows "\<exists>s'. fetch_loop env (pre @ (S_OK, r) # post) s = (GotoLExit, s') \<and> FAILED (hr s') \<and>
           appended (calls s') = appended (calls (snd (fetch_loop env pre s)))"
  using pre
proof (induction pre arbitrary: s)
  case Nil
  let ?s1 = "emit (EvFetchRecord S_OK) (s\<lparr>hr := S_OK\<rparr>)"
  obtain s' where "process_record env r ?s1 = (GotoLExit, s')" "FAILED (hr s')"
    "appended (calls s') = appended (calls ?s1)"
    using fatal_read_aborts [OF fatal, of ?s1] by blast
  then show ?case
    by (simp add: emit_fields appended_append appended_Cons appended_Nil)
next
  case (Cons x pre)
  obtain h q where x: "x = (h, q)" by (cases x)
  have h: "h = S_OK" using Cons.prems x by simp
  let ?s1 = "emit (EvFetchRecord S_OK) (s\<lparr>hr := S_OK\<rparr>)"
  obtain f s2 where p: "process_record env q ?s1 = (f, s2)"
    by (cases "process_record env q ?s1")
  show ?case
  proof (cases f)
    case Fallthrough
    have "\<forall>x \<in> set pre. fst x = S_OK" using Cons.prems by simp
    from Cons.IH [OF this, of s2] show ?thesis
      using p x h Fallthrough by simp
  next
    case GotoLExit
    have "FAILED (hr s2)" using process_record_GotoLExit p GotoLExit by blast
    then show ?thesis using p x h GotoLExit by simp
  qed
qed

text \<open>The calls of the loop hold no failed append, or the loop was left by a jump right
  after the first one.\<close>

lemma fetch_loop_calls:
  assumes "fetch_loop env v s = (f, s')"
  shows "\<exists>evs. calls s' = calls s @ evs \<and>
           (filter failed_add evs = [] \<or>
            (f = GotoLExit \<and> FAILED (hr s') \<and> add_abort (hr s') evs))"
  using assms
proof (induction v arbitrary: s)
  case Nil
  then show ?case by (auto simp: emit_fields)
next
  case (Cons x v)
  obtain h r where x: "x = (h, r)" by (cases x)
  show ?case
  proof (cases "h = S_OK")
    case False
    then show ?thesis using Cons.prems x by (auto simp: emit_fields)
  next
    case True
    let ?s1 = "emit (EvFetchRecord S_OK) (s\<lparr>hr := S_OK\<rparr>)"
    obtain g s2 where p: "process_record env r ?s1 = (g, s2)"
      by (cases "process_record env r ?s1")
    obtain evs where evs: "calls s2 = calls ?s1 @ evs"
      and shape: "filter failed_add evs = [] \<or>
        (g = GotoLExit \<and> FAILED (hr s2) \<and> add_abort (hr s2) evs)"
      using process_record_calls [OF p] by blast
    have c2: "calls s2 = calls s @ EvFetchRecord S_OK # evs"
      using evs by (simp add: emit_fields)
    show ?thesis
    proof (cases g)
      case GotoLExit
      then have res: "f = GotoLExit" "s' = s2" using Cons.prems p x True by simp_all
      from shape show ?thesis
      proof
        assume "filter failed_add evs = []"
        then show ?thesis using c2 res by simp
      next
        assume a: "g = GotoLExit \<and> FAILED (hr s2) \<and> add_abort (hr s2) evs"
        then have "add_abort (hr s2) ([EvFetchRecord S_OK] @ evs)"
          by (intro add_abort_prepend) simp_all
        then show ?thesis using c2 res a by simp
      qed
    next
      case Fallthrough
      then have clean: "filter failed_add evs = []" using shape by simp
      have rest: "fetch_loop env v s2 = (f, s')" using Cons.prems p x True Fallthrough by simp
      obtain evs' where evs': "calls s' = calls s2 @ evs'"
        and shape': "filter failed_add evs' = [] \<or>
          (f = GotoLExit \<and> FAILED (hr s') \<and> add_abort (hr s') evs')"
        using Cons.IH [OF rest] by blast
      have c': "calls s' = calls s @ (EvFetchRecord S_OK # evs) @ evs'"
        using c2 evs' by simp
      from shape' show ?thesis
      proof
        assume "filter failed_add evs' = []"
        then have "filter failed_add ((EvFetchRecord S_OK # evs) @ evs') = []"
          using clean by simp
        then show ?thesis using c' by blast
      next
        assume a: "f = GotoLExit \<and> FAILED (hr s') \<and> add_abort (hr s') evs'"
        have "add_abort (hr s') ((EvFetchRecord S_OK # evs) @ evs')"
          using clean a by (intro add_abort_prepend) simp_all
        then show ?thesis using c' a by blast
      qed
    qed
  qed
qed

subsection \<open>The whole pass\<close>

lemma no_failed_add_split:
  "filter failed_add T = [] \<Longrightarrow> T = es @ e # es' \<Longrightarrow> \<not> failed_add e"
  by (auto simp: filter_empty_conv)

lemma first_failed_add_unique:
  assumes "\<forall>y \<in> set A. \<not> failed_add y" "\<forall>y \<in> set B. \<not> failed_add y" "failed_add e"
    and "A @ e0 # B = es @ e # es'"
  shows "es = A \<and> e = e0 \<and> es' = B"
  using assms
proof (induction A arbitrary: es)
  case Nil
  show ?case
  proof (cases es)
    case Nil
    then show ?thesis using Nil.prems by simp
  next
    case tail: (Cons y ys)
    then have "e \<in> set B" using Nil.prems(4) by auto
    then show ?thesis using Nil.prems(2,3) by blast
  qed
next
  case (Cons z A)
  show ?case
  proof (cases es)
    case Nil
    then have "e = z" using Cons.prems(4) by simp
    then show ?thesis using Cons.prems(1,3) by simp
  next
    case tail: (Cons y ys)
    then have "y = z" and eq: "A @ e0 # B = ys @ e # es'" using Cons.prems(4) by simp_all
    moreover have "\<forall>y \<in> set A. \<not> failed_add y" using Cons.prems(1) by simp
    ultimately have "ys = A \<and> e = e0 \<and> es' = B"
      using Cons.IH [of ys] Cons.prems(2,3) by blast
    then show ?thesis using tail \<open>y = z\<close> by simp
  qed
qed

text \<open>The calls of a pass hold no failed append, or exactly one, followed by the trace of
  the exit, the closing of the handles and the report of a failure.\<close>

lemma pass_calls_shape:
  "filter failed_add (calls (snd (WixRemoveRegistryKeyEx env))) = [] \<or>
   (\<exists>A t n a h m x cl.
      calls (snd (WixRemoveRegistryKeyEx env)) =
        A @ EvAddTempRecord t n a h # EvExitTrace h m x # cl @ [EvFinalize ERROR_INSTALL_FAILURE] \<and>
      filter failed_add A = [] \<and> FAILED h \<and> (\<forall>e \<in> set cl. is_close e) \<and>
      fst (WixRemoveRegistryKeyEx env) = WcaFinalize env ERROR_INSTALL_FAILURE)"
proof (cases "\<not> FAILED (WcaInitialize env) \<and> WcaTableExists env = S_OK \<and>
    \<not> FAILED (fst (WcaOpenExecuteView env))")
  case False
  then have "filter failed_add (calls (snd (WixRemoveRegistryKeyEx env))) = []"
    by (auto simp: WixRemoveRegistryKeyEx_def Let_def split_beta LExit_calls emit_fields
        handle_closes_no_failed_add init_locals_def)
  then show ?thesis by simp
next
  case True
  let ?v = "snd (WcaOpenExecuteView env)"
  obtain f s' where loop: "fetch_loop env ?v (loop_entry env) = (f, s')"
    by (cases "fetch_loop env ?v (loop_entry env)")
  have run: "WixRemoveRegistryKeyEx env = after_loop env (f, s')"
    using pass_scans [of env] True loop by simp
  have entry: "filter failed_add (calls (loop_entry env)) = []"
    by (simp add: loop_entry_def emit_fields init_locals_def)
  obtain evs where evs: "calls s' = calls (loop_entry env) @ evs"
    and shape: "filter failed_add evs = [] \<or>
      (f = GotoLExit \<and> FAILED (hr s') \<and> add_abort (hr s') evs)"
    using fetch_loop_calls [OF loop] by blast
  from shape show ?thesis
  proof
    assume clean: "filter failed_add evs = []"
    then have "filter failed_add (calls s') = []" using evs entry by simp
    then have "filter failed_add (calls (snd (after_loop env (f, s')))) = []"
      by (cases f)
        (simp_all add: after_loop_def Let_def LExit_calls emit_fields handle_closes_no_failed_add)
    then show ?thesis using run by simp
  next
    assume a: "f = GotoLExit \<and> FAILED (hr s') \<and> add_abort (hr s') evs"
    then obtain es t n b m x
      where es: "evs = es @ [EvAddTempRecord t n b (hr s'), EvExitTrace (hr s') m x]"
        and cl: "filter failed_add es = []"
      unfolding add_abort_def by blast
    have "calls (snd (WixRemoveRegistryKeyEx env)) =
        (calls (loop_entry env) @ es) @ EvAddTempRecord t n b (hr s') # EvExitTrace (hr s') m x #
          handle_closes s' @ [EvFinalize ERROR_INSTALL_FAILURE]"
      using run a evs es by (simp add: after_loop_GotoLExit LExit_calls)
    moreover have "filter failed_add (calls (loop_entry env) @ es) = []" using entry cl by simp
    moreover have "fst (WixRemoveRegistryKeyEx env) = WcaFinalize env ERROR_INSTALL_FAILURE"
      using run a by (simp add: after_loop_GotoLExit LExit_fst)
    ultimately show ?thesis using a handle_closes_close by blast
  qed
qed

section \<open>The claims\<close>

subsection \<open>Translation of applicable rules\<close>

text \<open>
  Claim C2. For every rule with mode \<^verbatim>\<open>RemoveOnInstall\<close> (1) whose condition is applicable
  (empty, or evaluating to true), the pass appends exactly one row of 5 columns,
  (id, root, key, \<^verbatim>\<open>"-"\<close>, component), to the staging table \<^verbatim>\<open>RemoveRegistry\<close>, with the
  id, the root, the key and the component copied from the rule. Stated on the loop in
  any state \<open>s\<close> in which it fetches the rule: all six columns can be read and the engine
  accepts the append; then the loop goes on with the remaining records from a state
  whose appended rows are those of \<open>s\<close> followed by that one row.
\<close>

theorem remove_on_install:
  assumes ok: "reads_ok r"
    and app: "applicable env r"
    and mode: "snd (fMode r) = 1"
    and add: "\<not> FAILED (fst (WcaAddTempRecord env (hTable s, hColumns s) ''RemoveRegistry'' 5
        [ArgStr (snd (fId r)), ArgInt (snd (fRoot r)), ArgStr (snd (fKey r)), ArgStr (Some ''-''),
         ArgStr (snd (fComponent r))]))"
  shows "\<exists>s'. (\<forall>rest. fetch_loop env ((S_OK, r) # rest) s = fetch_loop env rest s') \<and>
           appended (calls s') = appended (calls s) @
             [(''RemoveRegistry'', 5,
               [ArgStr (snd (fId r)), ArgInt (snd (fRoot r)), ArgStr (snd (fKey r)),
                ArgStr (Some ''-''), ArgStr (snd (fComponent r))])]"
  using assms
  by (cases "WcaAddTempRecord env (hTable s, hColumns s) ''RemoveRegistry'' 5
        [ArgStr (snd (fId r)), ArgInt (snd (fRoot r)), ArgStr (snd (fKey r)), ArgStr (Some ''-''),
         ArgStr (snd (fComponent r))]")
    (auto simp: reads_ok_def applicable_def process_record_def translate_record_def
      switch_iMode_def Let_def emit_fields appended_append appended_Cons appended_Nil split_beta
      split: option.splits prod.splits)

text \<open>The first scenario of the specification: the rule R1 alone gives the row
  (R1, 2, \<open>key_X\<close>, \<^verbatim>\<open>"-"\<close>, C1).\<close>

theorem remove_on_install_witness:
  "reads_ok rule_R1 \<and> applicable (example_engine []) rule_R1 \<and> snd (fMode rule_R1) = 1 \<and>
   \<not> FAILED (fst (WcaAddTempRecord (example_engine []) (hTable init_locals, hColumns init_locals)
        ''RemoveRegistry'' 5 (snd (snd row_R1)))) \<and>
   appended (calls (snd (fetch_loop (example_engine []) [(S_OK, rule_R1)] init_locals))) =
     [row_R1]"
proof -
  let ?E = "example_engine []"
  have h1: "reads_ok rule_R1"
    by (simp add: reads_ok_def rule_R1_def not_FAILED_S_OK)
  have h2: "applicable ?E rule_R1"
    by (simp add: applicable_def rule_R1_def condition_text_def)
  have h3: "snd (fMode rule_R1) = 1"
    by (simp add: rule_R1_def)
  have h4: "\<not> FAILED (fst (WcaAddTempRecord ?E (hTable init_locals, hColumns init_locals)
        ''RemoveRegistry'' 5
        [ArgStr (snd (fId rule_R1)), ArgInt (snd (fRoot rule_R1)), ArgStr (snd (fKey rule_R1)),
         ArgStr (Some ''-''), ArgStr (snd (fComponent rule_R1))]))"
    by (simp add: example_engine_def add_succeeds_def not_FAILED_S_OK)
  obtain s' where l: "\<forall>rest. fetch_loop ?E ((S_OK, rule_R1) # rest) init_locals = fetch_loop ?E rest s'"
    and a: "appended (calls s') = appended (calls init_locals) @
             [(''RemoveRegistry'', 5,
               [ArgStr (snd (fId rule_R1)), ArgInt (snd (fRoot rule_R1)), ArgStr (snd (fKey rule_R1)),
                ArgStr (Some ''-''), ArgStr (snd (fComponent rule_R1))])]"
    using remove_on_install [OF h1 h2 h3 h4] by blast
  have "fetch_loop ?E [(S_OK, rule_R1)] init_locals = fetch_loop ?E [] s'"
    using l by blast
  then have "appended (calls (snd (fetch_loop ?E [(S_OK, rule_R1)] init_locals))) =
      appended (calls s')"
    by (simp add: emit_fields appended_append appended_Cons appended_Nil)
  then show ?thesis
    using h1 h2 h3 h4 a by (simp add: row_R1_def rule_R1_def init_locals_def appended_Nil)
qed

text \<open>
  Claim C3. For every rule with mode \<^verbatim>\<open>RemoveOnUninstall\<close> (2) whose condition is
  applicable, the pass appends exactly one row of 6 columns,
  (id, root, key, \<^verbatim>\<open>"-"\<close>, \<^verbatim>\<open>NULL\<close>, component), to the staging table \<^verbatim>\<open>Registry\<close>, with the id,
  the root, the key and the component copied from the rule. Stated as for C2.
\<close>

theorem remove_on_uninstall:
  assumes ok: "reads_ok r"
    and app: "applicable env r"
    and mode: "snd (fMode r) = 2"
    and add: "\<not> FAILED (fst (WcaAddTempRecord env (hTable s, hColumns s) ''Registry'' 6
        [ArgStr (snd (fId r)), ArgInt (snd (fRoot r)), ArgStr (snd (fKey r)), ArgStr (Some ''-''),
         ArgStr None, ArgStr (snd (fComponent r))]))"
  shows "\<exists>s'. (\<forall>rest. fetch_loop env ((S_OK, r) # rest) s = fetch_loop env rest s') \<and>
           appended (calls s') = appended (calls s) @
             [(''Registry'', 6,
               [ArgStr (snd (fId r)), ArgInt (snd (fRoot r)), ArgStr (snd (fKey r)),
                ArgStr (Some ''-''), ArgStr None, ArgStr (snd (fComponent r))])]"
  using assms
  by (cases "WcaAddTempRecord env (hTable s, hColumns s) ''Registry'' 6
        [ArgStr (snd (fId r)), ArgInt (snd (fRoot r)), ArgStr (snd (fKey r)), ArgStr (Some ''-''),
         ArgStr None, ArgStr (snd (fComponent r))]")
    (auto simp: reads_ok_def applicable_def process_record_def translate_record_def
      switch_iMode_def Let_def emit_fields appended_append appended_Cons appended_Nil split_beta
      split: option.splits prod.splits)

text \<open>The second scenario of the specification: the rule R2, whose condition holds, gives
  the row (R2, 0, \<open>key_Y\<close>, \<^verbatim>\<open>"-"\<close>, \<^verbatim>\<open>NULL\<close>, C2).\<close>

theorem remove_on_uninstall_witness:
  "reads_ok rule_R2 \<and> applicable (example_engine []) rule_R2 \<and> snd (fMode rule_R2) = 2 \<and>
   \<not> FAILED (fst (WcaAddTempRecord (example_engine []) (hTable init_locals, hColumns init_locals)
        ''Registry'' 6 (snd (snd row_R2)))) \<and>
   appended (calls (snd (fetch_loop (example_engine []) [(S_OK, rule_R2)] init_locals))) =
     [row_R2]"
proof -
  let ?E = "example_engine []"
  have h1: "reads_ok rule_R2"
    by (simp add: reads_ok_def rule_R2_def not_FAILED_S_OK)
  have h2: "applicable ?E rule_R2"
    by (simp add: applicable_def rule_R2_def condition_text_def example_engine_def
        example_condition_def)
  have h3: "snd (fMode rule_R2) = 2"
    by (simp add: rule_R2_def)
  have h4: "\<not> FAILED (fst (WcaAddTempRecord ?E (hTable init_locals, hColumns init_locals)
        ''Registry'' 6
        [ArgStr (snd (fId rule_R2)), ArgInt (snd (fRoot rule_R2)), ArgStr (snd (fKey rule_R2)),
         ArgStr (Some ''-''), ArgStr None, ArgStr (snd (fComponent rule_R2))]))"
    by (simp add: example_engine_def add_succeeds_def not_FAILED_S_OK)
  obtain s' where l: "\<forall>rest. fetch_loop ?E ((S_OK, rule_R2) # rest) init_locals = fetch_loop ?E rest s'"
    and a: "appended (calls s') = appended (calls init_locals) @
             [(''Registry'', 6,
               [ArgStr (snd (fId rule_R2)), ArgInt (snd (fRoot rule_R2)), ArgStr (snd (fKey rule_R2)),
                ArgStr (Some ''-''), ArgStr None, ArgStr (snd (fComponent rule_R2))])]"
    using remove_on_uninstall [OF h1 h2 h3 h4] by blast
  have "fetch_loop ?E [(S_OK, rule_R2)] init_locals = fetch_loop ?E [] s'"
    using l by blast
  then have "appended (calls (snd (fetch_loop ?E [(S_OK, rule_R2)] init_locals))) =
      appended (calls s')"
    by (simp add: emit_fields appended_append appended_Cons appended_Nil)
  then show ?thesis
    using h1 h2 h3 h4 a by (simp add: row_R2_def rule_R2_def init_locals_def appended_Nil)
qed

subsection \<open>Rules that are skipped\<close>

text \<open>
  Claim C4. For every rule whose non-empty condition evaluates to false or to invalid, the
  two outcomes are treated alike: no output row is produced for the rule whatever its
  mode, the skip is logged, it is not an error, and the pass goes on with the remaining
  rules. Stated on the loop in any state \<open>s\<close> in which it fetches the rule: the identity
  and the condition can be read and the evaluator answers anything but
  \<^verbatim>\<open>MSICONDITION_TRUE\<close>; then the calls made for the rule are the fetch, the two reads, the
  evaluation and the log message, and the loop goes on with the remaining records.
\<close>

theorem false_or_invalid_skipped:
  assumes id_ok: "\<not> FAILED (fst (fId r))"
    and cond_ok: "\<not> FAILED (fst (fCondition r))"
    and nonempty: "condition_text (snd (fCondition r)) = Some c"
    and untrue: "MsiEvaluateConditionW env c \<noteq> MSICONDITION_TRUE"
  shows "\<exists>s'. (\<forall>rest. fetch_loop env ((S_OK, r) # rest) s = fetch_loop env rest s') \<and>
           calls s' = calls s @
             [EvFetchRecord S_OK,
              EvGetRecordString rrxqId (fst (fId r)),
              EvGetRecordString rrxqCondition (fst (fCondition r)),
              EvEvaluateCondition c (MsiEvaluateConditionW env c),
              EvLog ''False or invalid condition for row %S: %S; skipping.''
                [ArgStr (snd (fId r)), ArgStr (snd (fCondition r))]] \<and>
           appended (calls s') = appended (calls s) \<and>
           filter is_staging (calls s') = filter is_staging (calls s) \<and>
           filter is_error (calls s') = filter is_error (calls s) \<and>
           \<not> FAILED (hr s')"
  using assms
  by (auto simp: process_record_def Let_def emit_fields appended_append appended_Cons appended_Nil
      split_beta split: option.splits prod.splits)

text \<open>A condition that does not parse, on a rule of mode 2.\<close>

theorem false_or_invalid_skipped_witness:
  "\<not> FAILED (fst (fId rule_invalid)) \<and> \<not> FAILED (fst (fCondition rule_invalid)) \<and>
   condition_text (snd (fCondition rule_invalid)) = Some ''((('' \<and>
   MsiEvaluateConditionW (example_engine []) ''((('' \<noteq> MSICONDITION_TRUE \<and>
   (\<exists>s'. (\<forall>rest. fetch_loop (example_engine []) ((S_OK, rule_invalid) # rest) init_locals =
              fetch_loop (example_engine []) rest s') \<and>
      calls s' =
        [EvFetchRecord S_OK, EvGetRecordString rrxqId S_OK, EvGetRecordString rrxqCondition S_OK,
         EvEvaluateCondition ''((('' MSICONDITION_ERROR,
         EvLog ''False or invalid condition for row %S: %S; skipping.''
           [ArgStr (Some ''R2''), ArgStr (Some ''((('')]] \<and>
      appended (calls s') = [] \<and> \<not> FAILED (hr s'))"
proof -
  let ?E = "example_engine []"
  have h1: "\<not> FAILED (fst (fId rule_invalid))"
    by (simp add: rule_invalid_def rule_R2_def not_FAILED_S_OK)
  have h2: "\<not> FAILED (fst (fCondition rule_invalid))"
    by (simp add: rule_invalid_def rule_R2_def not_FAILED_S_OK)
  have h3: "condition_text (snd (fCondition rule_invalid)) = Some ''(((''"
    by (simp add: rule_invalid_def rule_R2_def condition_text_def)
  have h4: "MsiEvaluateConditionW ?E ''((('' \<noteq> MSICONDITION_TRUE"
    by (simp add: example_engine_def example_condition_def)
  obtain s' where l: "\<forall>rest. fetch_loop ?E ((S_OK, rule_invalid) # rest) init_locals =
        fetch_loop ?E rest s'"
    and c: "calls s' = calls init_locals @
             [EvFetchRecord S_OK,
              EvGetRecordString rrxqId (fst (fId rule_invalid)),
              EvGetRecordString rrxqCondition (fst (fCondition rule_invalid)),
              EvEvaluateCondition ''((('' (MsiEvaluateConditionW ?E ''(((''),
              EvLog ''False or invalid condition for row %S: %S; skipping.''
                [ArgStr (snd (fId rule_invalid)), ArgStr (snd (fCondition rule_invalid))]]"
    and a: "appended (calls s') = appended (calls init_locals)"
    and f: "\<not> FAILED (hr s')"
    using false_or_invalid_skipped [OF h1 h2 h3 h4, of init_locals] by blast
  have c': "calls s' =
        [EvFetchRecord S_OK, EvGetRecordString rrxqId S_OK, EvGetRecordString rrxqCondition S_OK,
         EvEvaluateCondition ''((('' MSICONDITION_ERROR,
         EvLog ''False or invalid condition for row %S: %S; skipping.''
           [ArgStr (Some ''R2''), ArgStr (Some ''((('')]]"
    using c
    by (simp add: rule_invalid_def rule_R2_def init_locals_def example_engine_def
        example_condition_def)
  have a': "appended (calls s') = []"
    using a by (simp add: init_locals_def appended_Nil)
  show ?thesis
    using h1 h2 h3 h4 l c' a' f by blast
qed

text \<open>
  Claim C10. For every rule whose non-empty condition evaluates to false or to invalid, the
  pass reads only the columns \<^verbatim>\<open>Id\<close> and \<^verbatim>\<open>Condition\<close> of the record: \<^verbatim>\<open>Component\<close>, \<^verbatim>\<open>Root\<close>,
  \<^verbatim>\<open>Key\<close> and \<^verbatim>\<open>InstallMode\<close> are never fetched for it, so that an error in those columns
  of a skipped row cannot abort the pass. Stated as: a record \<open>r'\<close> that agrees with the
  skipped record \<open>r\<close> on the identity and the condition, whatever its other four columns
  answer, takes the loop to the same result, and the columns read are those two.
\<close>

theorem skipped_row_reads_two_columns:
  assumes id_ok: "\<not> FAILED (fst (fId r))"
    and cond_ok: "\<not> FAILED (fst (fCondition r))"
    and nonempty: "condition_text (snd (fCondition r)) = Some c"
    and untrue: "MsiEvaluateConditionW env c \<noteq> MSICONDITION_TRUE"
    and same_id: "fId r' = fId r"
    and same_cond: "fCondition r' = fCondition r"
  shows "fetch_loop env ((S_OK, r') # rest) s = fetch_loop env ((S_OK, r) # rest) s \<and>
         (\<exists>s'. fetch_loop env ((S_OK, r') # rest) s = fetch_loop env rest s' \<and>
            columns_read (calls s') = columns_read (calls s) @ [rrxqId, rrxqCondition])"
  using assms
  by (auto simp: process_record_def Let_def emit_fields columns_read_def
      split_beta split: option.splits prod.splits)

text \<open>The rule with the false condition, and the same rule with four columns that fail.\<close>

theorem skipped_row_reads_two_columns_witness:
  "\<not> FAILED (fst (fId rule_false)) \<and> \<not> FAILED (fst (fCondition rule_false)) \<and>
   condition_text (snd (fCondition rule_false)) = Some ''Installed'' \<and>
   MsiEvaluateConditionW (example_engine []) ''Installed'' \<noteq> MSICONDITION_TRUE \<and>
   fId rule_unreadable = fId rule_false \<and> fCondition rule_unreadable = fCondition rule_false \<and>
   FAILED (fst (fComponent rule_unreadable)) \<and> FAILED (fst (fRoot rule_unreadable)) \<and>
   FAILED (fst (fKey rule_unreadable)) \<and> FAILED (fst (fMode rule_unreadable)) \<and>
   fetch_loop (example_engine []) [(S_OK, rule_unreadable), (S_OK, rule_R1)] init_locals =
     fetch_loop (example_engine []) [(S_OK, rule_false), (S_OK, rule_R1)] init_locals \<and>
   (\<exists>s'. fetch_loop (example_engine []) [(S_OK, rule_unreadable), (S_OK, rule_R1)] init_locals =
            fetch_loop (example_engine []) [(S_OK, rule_R1)] s' \<and>
      columns_read (calls s') = [rrxqId, rrxqCondition])"
proof -
  let ?E = "example_engine []"
  have h1: "\<not> FAILED (fst (fId rule_false))"
    by (simp add: rule_false_def rule_R2_def not_FAILED_S_OK)
  have h2: "\<not> FAILED (fst (fCondition rule_false))"
    by (simp add: rule_false_def rule_R2_def not_FAILED_S_OK)
  have h3: "condition_text (snd (fCondition rule_false)) = Some ''Installed''"
    by (simp add: rule_false_def rule_R2_def condition_text_def)
  have h4: "MsiEvaluateConditionW ?E ''Installed'' \<noteq> MSICONDITION_TRUE"
    by (simp add: example_engine_def example_condition_def)
  have h5: "fId rule_unreadable = fId rule_false"
    by (simp add: rule_unreadable_def rule_false_def rule_R2_def)
  have h6: "fCondition rule_unreadable = fCondition rule_false"
    by (simp add: rule_unreadable_def rule_false_def rule_R2_def)
  have f: "FAILED (fst (fComponent rule_unreadable)) \<and> FAILED (fst (fRoot rule_unreadable)) \<and>
      FAILED (fst (fKey rule_unreadable)) \<and> FAILED (fst (fMode rule_unreadable))"
    by (simp add: rule_unreadable_def FAILED_E_FAIL)
  note t = skipped_row_reads_two_columns [OF h1 h2 h3 h4 h5 h6, of "[(S_OK, rule_R1)]" init_locals]
  obtain s' where l: "fetch_loop ?E [(S_OK, rule_unreadable), (S_OK, rule_R1)] init_locals =
        fetch_loop ?E [(S_OK, rule_R1)] s'"
    and c: "columns_read (calls s') = columns_read (calls init_locals) @ [rrxqId, rrxqCondition]"
    using t by blast
  have c': "columns_read (calls s') = [rrxqId, rrxqCondition]"
    using c by (simp add: init_locals_def columns_read_def)
  have e: "fetch_loop ?E [(S_OK, rule_unreadable), (S_OK, rule_R1)] init_locals =
      fetch_loop ?E [(S_OK, rule_false), (S_OK, rule_R1)] init_locals"
    using t by blast
  show ?thesis
    using h1 h2 h3 h4 h5 h6 f e l c' by blast
qed

text \<open>
  Claim C5. For every rule whose mode is neither 1 nor 2, the pass appends no row to
  either staging table, raises no error, emits no log message for the skip, and goes on
  with the next rule. Stated on the loop in any state \<open>s\<close> in which it fetches the rule,
  all six columns of which can be read: the loop goes on with the remaining records, no
  staging-table call and no error trace were added, the status is not a failure, and the
  only log message added is the one about the condition, if the rule has one.
\<close>

theorem other_mode_silent:
  assumes ok: "reads_ok r"
    and not1: "snd (fMode r) \<noteq> 1"
    and not2: "snd (fMode r) \<noteq> 2"
  shows "\<exists>s'. (\<forall>rest. fetch_loop env ((S_OK, r) # rest) s = fetch_loop env rest s') \<and>
           appended (calls s') = appended (calls s) \<and>
           filter is_staging (calls s') = filter is_staging (calls s) \<and>
           filter is_error (calls s') = filter is_error (calls s) \<and>
           \<not> FAILED (hr s') \<and>
           filter is_log (calls s') = filter is_log (calls s) @
             (case condition_text (snd (fCondition r)) of
                None \<Rightarrow> []
              | Some c \<Rightarrow>
                  [EvLog (if MsiEvaluateConditionW env c = MSICONDITION_TRUE
                          then ''True condition for row %S: %S; processing.''
                          else ''False or invalid condition for row %S: %S; skipping.'')
                     [ArgStr (snd (fId r)), ArgStr (snd (fCondition r))]])"
  using assms
  by (auto simp: reads_ok_def process_record_def translate_record_def switch_iMode_def
      Let_def emit_fields appended_append appended_Cons appended_Nil split_beta
      split: option.splits prod.splits)

text \<open>The first rule with mode 3: nothing is appended and nothing is logged.\<close>

theorem other_mode_silent_witness:
  "reads_ok rule_mode3 \<and> snd (fMode rule_mode3) \<noteq> 1 \<and> snd (fMode rule_mode3) \<noteq> 2 \<and>
   (\<exists>s'. (\<forall>rest. fetch_loop (example_engine []) ((S_OK, rule_mode3) # rest) init_locals =
              fetch_loop (example_engine []) rest s') \<and>
      appended (calls s') = [] \<and> filter is_staging (calls s') = [] \<and>
      filter is_error (calls s') = [] \<and> \<not> FAILED (hr s') \<and> filter is_log (calls s') = [])"
proof -
  have h1: "reads_ok rule_mode3"
    by (simp add: reads_ok_def rule_mode3_def rule_R1_def not_FAILED_S_OK)
  have h2: "snd (fMode rule_mode3) \<noteq> 1"
    by (simp add: rule_mode3_def)
  have h3: "snd (fMode rule_mode3) \<noteq> 2"
    by (simp add: rule_mode3_def)
  obtain s' where l: "\<forall>rest. fetch_loop (example_engine []) ((S_OK, rule_mode3) # rest) init_locals =
        fetch_loop (example_engine []) rest s'"
    and a: "appended (calls s') = appended (calls init_locals)"
    and st: "filter is_staging (calls s') = filter is_staging (calls init_locals)"
    and er: "filter is_error (calls s') = filter is_error (calls init_locals)"
    and f: "\<not> FAILED (hr s')"
    and lg: "filter is_log (calls s') = filter is_log (calls init_locals) @
             (case condition_text (snd (fCondition rule_mode3)) of
                None \<Rightarrow> []
              | Some c \<Rightarrow>
                  [EvLog (if MsiEvaluateConditionW (example_engine []) c = MSICONDITION_TRUE
                          then ''True condition for row %S: %S; processing.''
                          else ''False or invalid condition for row %S: %S; skipping.'')
                     [ArgStr (snd (fId rule_mode3)), ArgStr (snd (fCondition rule_mode3))]])"
    using other_mode_silent [OF h1 h2 h3, of "example_engine []" init_locals] by blast
  have a': "appended (calls s') = []"
    using a by (simp add: init_locals_def appended_Nil)
  have st': "filter is_staging (calls s') = []"
    using st by (simp add: init_locals_def)
  have er': "filter is_error (calls s') = []"
    using er by (simp add: init_locals_def)
  have lg': "filter is_log (calls s') = []"
    using lg by (simp add: init_locals_def rule_mode3_def rule_R1_def condition_text_def)
  show ?thesis
    using h1 h2 h3 l a' st' er' f lg' by blast
qed

text \<open>
  Claim C6. For every rule whose condition string is empty or absent, the condition
  evaluator is never invoked for the rule and the rule is treated as applicable, so that
  it proceeds to translation. Stated on the loop body: when the identity and the condition
  can be read and the condition is the \<^verbatim>\<open>NULL\<close> pointer or the empty string, the body is the
  translation (lines 62 to 86) run right after the two reads, and the run adds no call of
  the evaluator.
\<close>

theorem empty_condition_not_evaluated:
  assumes id_ok: "\<not> FAILED (fst (fId r))"
    and cond_ok: "\<not> FAILED (fst (fCondition r))"
    and blank: "snd (fCondition r) = None \<or> snd (fCondition r) = Some []"
  shows "process_record env r s =
           translate_record env r
             (emit (EvGetRecordString rrxqCondition (fst (fCondition r)))
                (emit (EvGetRecordString rrxqId (fst (fId r)))
                   (s\<lparr>hr := fst (fId r), sczId := snd (fId r)\<rparr>)
                 \<lparr>hr := fst (fCondition r), sczCondition := snd (fCondition r)\<rparr>)) \<and>
         filter is_evaluation (calls (snd (process_record env r s))) =
           filter is_evaluation (calls s)"
proof -
  let ?s2 = "emit (EvGetRecordString rrxqCondition (fst (fCondition r)))
                (emit (EvGetRecordString rrxqId (fst (fId r)))
                   (s\<lparr>hr := fst (fId r), sczId := snd (fId r)\<rparr>)
                 \<lparr>hr := fst (fCondition r), sczCondition := snd (fCondition r)\<rparr>)"
  have none: "condition_text (snd (fCondition r)) = None"
    using blank by (auto simp: condition_text_def)
  have run: "process_record env r s = translate_record env r ?s2"
    using id_ok cond_ok none
    by (simp add: process_record_def Let_def emit_fields split_beta)
  have "filter is_evaluation (calls (snd (translate_record env r ?s2))) =
      filter is_evaluation (calls ?s2)"
    by (rule translate_record_evaluations)
  also have "\<dots> = filter is_evaluation (calls s)"
    by (simp add: emit_fields)
  finally show ?thesis using run by simp
qed

text \<open>The rule R1, whose condition is the empty string.\<close>

theorem empty_condition_not_evaluated_witness:
  "\<not> FAILED (fst (fId rule_R1)) \<and> \<not> FAILED (fst (fCondition rule_R1)) \<and>
   (snd (fCondition rule_R1) = None \<or> snd (fCondition rule_R1) = Some []) \<and>
   filter is_evaluation (calls (snd (process_record (example_engine []) rule_R1 init_locals))) = []"
proof -
  have h1: "\<not> FAILED (fst (fId rule_R1))"
    by (simp add: rule_R1_def not_FAILED_S_OK)
  have h2: "\<not> FAILED (fst (fCondition rule_R1))"
    by (simp add: rule_R1_def not_FAILED_S_OK)
  have h3: "snd (fCondition rule_R1) = None \<or> snd (fCondition rule_R1) = Some []"
    by (simp add: rule_R1_def)
  have "filter is_evaluation (calls (snd (process_record (example_engine []) rule_R1 init_locals))) =
      filter is_evaluation (calls init_locals)"
    using empty_condition_not_evaluated [OF h1 h2 h3, of "example_engine []" init_locals]
    by blast
  moreover have "filter is_evaluation (calls init_locals) = []"
    by (simp add: init_locals_def)
  ultimately have
    "filter is_evaluation (calls (snd (process_record (example_engine []) rule_R1 init_locals))) = []"
    by (rule trans)
  then show ?thesis
    using h1 h2 h3 by blast
qed

subsection \<open>An absent rule table\<close>

text \<open>
  Claim C7. If the rule table does not exist, the pass performs no staging-table
  interaction, produces no output row, and reports success. Stated on the whole function,
  once \<^verbatim>\<open>WcaInitialize\<close> has succeeded and \<^verbatim>\<open>WcaTableExists\<close> answers anything but \<^verbatim>\<open>S_OK\<close>:
  the calls are the initialisation, the existence check, one log message and
  \<^verbatim>\<open>WcaFinalize\<close> with \<^verbatim>\<open>ERROR_SUCCESS\<close>.
\<close>

theorem table_absent_noop:
  assumes init: "\<not> FAILED (WcaInitialize env)"
    and absent: "WcaTableExists env \<noteq> S_OK"
  shows "fst (WixRemoveRegistryKeyEx env) = WcaFinalize env ERROR_SUCCESS \<and>
         calls (snd (WixRemoveRegistryKeyEx env)) =
           [EvInitialize (WcaInitialize env), EvTableExists (WcaTableExists env),
            EvLog (''WixRemoveRegistryKeyEx table doesn'' @ [CHR 0x27] @
                   ''t exist, so there are no registry keys to remove.'') [],
            EvFinalize ERROR_SUCCESS] \<and>
         filter is_staging (calls (snd (WixRemoveRegistryKeyEx env))) = [] \<and>
         appended (calls (snd (WixRemoveRegistryKeyEx env))) = [] \<and>
         reported (calls (snd (WixRemoveRegistryKeyEx env))) = [ERROR_SUCCESS]"
proof -
  have c: "calls (snd (WixRemoveRegistryKeyEx env)) =
           [EvInitialize (WcaInitialize env), EvTableExists (WcaTableExists env),
            EvLog (''WixRemoveRegistryKeyEx table doesn'' @ [CHR 0x27] @
                   ''t exist, so there are no registry keys to remove.'') [],
            EvFinalize ERROR_SUCCESS]"
    using assms
    by (auto simp: WixRemoveRegistryKeyEx_def LExit_calls handle_closes_def Let_def emit_fields
        init_locals_def)
  have r: "fst (WixRemoveRegistryKeyEx env) = WcaFinalize env ERROR_SUCCESS"
    using assms
    by (auto simp: WixRemoveRegistryKeyEx_def LExit_fst Let_def emit_fields init_locals_def)
  show ?thesis
    unfolding c using r by (simp add: appended_def reported_def)
qed

text \<open>An engine whose existence check answers \<^verbatim>\<open>S_FALSE\<close>.\<close>

theorem table_absent_noop_witness:
  "\<not> FAILED (WcaInitialize absent_engine) \<and> WcaTableExists absent_engine \<noteq> S_OK \<and>
   fst (WixRemoveRegistryKeyEx absent_engine) = ERROR_SUCCESS \<and>
   filter is_staging (calls (snd (WixRemoveRegistryKeyEx absent_engine))) = [] \<and>
   appended (calls (snd (WixRemoveRegistryKeyEx absent_engine))) = [] \<and>
   reported (calls (snd (WixRemoveRegistryKeyEx absent_engine))) = [ERROR_SUCCESS]"
proof -
  have h1: "\<not> FAILED (WcaInitialize absent_engine)"
    by (simp add: absent_engine_def example_engine_def not_FAILED_S_OK)
  have h2: "WcaTableExists absent_engine \<noteq> S_OK"
    by (simp add: absent_engine_def S_FALSE_def S_OK_def)
  have w: "WcaFinalize absent_engine ERROR_SUCCESS = ERROR_SUCCESS"
    by (simp add: absent_engine_def example_engine_def)
  note t = table_absent_noop [OF h1 h2]
  have r: "fst (WixRemoveRegistryKeyEx absent_engine) = ERROR_SUCCESS"
    using t [THEN conjunct1] w by (rule trans)
  note rest = t [THEN conjunct2, THEN conjunct2]
  show ?thesis
    by (intro conjI h1 h2 r rest [THEN conjunct1] rest [THEN conjunct2, THEN conjunct1]
        rest [THEN conjunct2, THEN conjunct2])
qed

subsection \<open>Failures that abort the pass\<close>

text \<open>
  Claim C8. If a staging-table append fails for some rule, the pass aborts at once with a
  failure status: no later rule is processed, and the rows staged before the failure stay
  in place. Stated on the calls of the whole function: wherever a call of
  \<^verbatim>\<open>WcaAddTempRecord\<close> with a failed status occurs among them, what follows is the trace of
  the exit with that status, the closing of handles and \<^verbatim>\<open>WcaFinalize\<close> with
  \<^verbatim>\<open>ERROR_INSTALL_FAILURE\<close>, and the rows appended by the pass are those appended before
  the failing call.
\<close>

theorem failed_append_aborts_pass:
  assumes tr: "calls (snd (WixRemoveRegistryKeyEx env)) = es @ EvAddTempRecord t n a h # es'"
    and failed: "FAILED h"
  shows "fst (WixRemoveRegistryKeyEx env) = WcaFinalize env ERROR_INSTALL_FAILURE \<and>
         (\<exists>m x cl. es' = EvExitTrace h m x # cl @ [EvFinalize ERROR_INSTALL_FAILURE] \<and>
            (\<forall>e \<in> set cl. is_close e)) \<and>
         appended (calls (snd (WixRemoveRegistryKeyEx env))) = appended es"
proof -
  have bad: "failed_add (EvAddTempRecord t n a h)" using failed by simp
  from pass_calls_shape [of env] show ?thesis
  proof
    assume "filter failed_add (calls (snd (WixRemoveRegistryKeyEx env))) = []"
    then have "\<not> failed_add (EvAddTempRecord t n a h)" using tr no_failed_add_split by blast
    then show ?thesis using bad by simp
  next
    assume "\<exists>A t n a h m x cl.
      calls (snd (WixRemoveRegistryKeyEx env)) =
        A @ EvAddTempRecord t n a h # EvExitTrace h m x # cl @ [EvFinalize ERROR_INSTALL_FAILURE] \<and>
      filter failed_add A = [] \<and> FAILED h \<and> (\<forall>e \<in> set cl. is_close e) \<and>
      fst (WixRemoveRegistryKeyEx env) = WcaFinalize env ERROR_INSTALL_FAILURE"
    then obtain A t0 n0 a0 h0 m x cl where
      T: "calls (snd (WixRemoveRegistryKeyEx env)) =
        A @ EvAddTempRecord t0 n0 a0 h0 # EvExitTrace h0 m x # cl @
          [EvFinalize ERROR_INSTALL_FAILURE]"
      and A: "filter failed_add A = []" and cl: "\<forall>e \<in> set cl. is_close e"
      and res: "fst (WixRemoveRegistryKeyEx env) = WcaFinalize env ERROR_INSTALL_FAILURE"
      by blast
    have A': "\<forall>y \<in> set A. \<not> failed_add y" using A by (simp add: filter_empty_conv)
    have B: "\<forall>y \<in> set (EvExitTrace h0 m x # cl @ [EvFinalize ERROR_INSTALL_FAILURE]).
        \<not> failed_add y"
      using cl is_close_not_failed_add by auto
    have eq: "A @ EvAddTempRecord t0 n0 a0 h0 #
          (EvExitTrace h0 m x # cl @ [EvFinalize ERROR_INSTALL_FAILURE])
        = es @ EvAddTempRecord t n a h # es'"
      using T tr by simp
    have u: "es = A \<and> EvAddTempRecord t n a h = EvAddTempRecord t0 n0 a0 h0 \<and>
        es' = EvExitTrace h0 m x # cl @ [EvFinalize ERROR_INSTALL_FAILURE]"
      using first_failed_add_unique [OF A' B bad eq] by simp
    have "appended es' = []"
      using u cl by (simp add: appended_def is_close_appended_row)
    then have "appended (calls (snd (WixRemoveRegistryKeyEx env))) = appended es"
      using tr failed by (simp add: appended_append appended_Cons)
    then show ?thesis using u res cl by auto
  qed
qed

text \<open>A table with R1, R2 and R1 again, on an engine that refuses every append to
  \<^verbatim>\<open>Registry\<close>: the row of the first rule stays, the third rule is never fetched.\<close>

theorem failed_append_aborts_pass_witness:
  "calls (snd (WixRemoveRegistryKeyEx mixed_engine)) =
     mixed_before @ EvAddTempRecord ''Registry'' 6 (snd (snd row_R2)) E_FAIL # mixed_after \<and>
   FAILED E_FAIL \<and>
   fst (WixRemoveRegistryKeyEx mixed_engine) = ERROR_INSTALL_FAILURE \<and>
   appended (calls (snd (WixRemoveRegistryKeyEx mixed_engine))) = [row_R1]"
proof -
  have tr: "calls (snd (WixRemoveRegistryKeyEx mixed_engine)) =
      mixed_before @ EvAddTempRecord ''Registry'' 6 (snd (snd row_R2)) E_FAIL # mixed_after"
    by code_simp
  have w: "WcaFinalize mixed_engine ERROR_INSTALL_FAILURE = ERROR_INSTALL_FAILURE"
    by (simp add: mixed_engine_def failing_engine_def example_engine_def)
  have b: "appended mixed_before = [row_R1]"
    by code_simp
  show ?thesis
    using tr FAILED_E_FAIL w b failed_append_aborts_pass [OF tr FAILED_E_FAIL] by simp
qed

text \<open>
  Claim C1, as amended. For every row fetched from the rule table, a failed read of the
  identity (or of the condition), or, when the condition of the row is empty or evaluates
  to true, a failed read of the component, the root, the key or the mode, is a fatal
  error that aborts the whole pass: no output row is appended for that rule or for any
  later one, and the pass reports failure. Stated on the whole function: the table exists
  and its view opens; the row \<open>r\<close> comes after rows \<open>pre\<close> that were all fetched with
  \<^verbatim>\<open>S_OK\<close> and before any rows \<open>post\<close>. Then the status handed to \<^verbatim>\<open>WcaFinalize\<close> is
  \<^verbatim>\<open>ERROR_INSTALL_FAILURE\<close>, and the rows appended are those of the pass over a table that
  holds the rows \<open>pre\<close> only.
\<close>

theorem failed_read_aborts_pass:
  assumes init: "\<not> FAILED (WcaInitialize env)"
    and exists: "WcaTableExists env = S_OK"
    and opened: "\<not> FAILED (fst (WcaOpenExecuteView env))"
    and view: "snd (WcaOpenExecuteView env) = pre @ (S_OK, r) # post"
    and pre: "\<forall>x \<in> set pre. fst x = S_OK"
    and fatal: "fatal_read env r"
  shows "fst (WixRemoveRegistryKeyEx env) = WcaFinalize env ERROR_INSTALL_FAILURE \<and>
         reported (calls (snd (WixRemoveRegistryKeyEx env))) = [ERROR_INSTALL_FAILURE] \<and>
         appended (calls (snd (WixRemoveRegistryKeyEx env))) =
           appended (calls (snd (WixRemoveRegistryKeyEx (with_view env pre))))"
proof -
  obtain s' where loop: "fetch_loop env (pre @ (S_OK, r) # post) (loop_entry env) = (GotoLExit, s')"
    and failed: "FAILED (hr s')"
    and rows: "appended (calls s') = appended (calls (snd (fetch_loop env pre (loop_entry env))))"
    using fetch_loop_fatal_read [OF pre fatal] by blast
  have run: "WixRemoveRegistryKeyEx env = LExit env s'"
    using pass_scans [OF init exists opened] view loop by (simp add: after_loop_GotoLExit)
  have "reported (calls s') = []"
    using fetch_loop_reported [of env "pre @ (S_OK, r) # post" "loop_entry env"] loop
    by (simp add: loop_entry_reported)
  then have rep: "reported (calls (snd (WixRemoveRegistryKeyEx env))) = [ERROR_INSTALL_FAILURE]"
    using run failed by (simp add: LExit_reported)
  have "WixRemoveRegistryKeyEx (with_view env pre) =
          after_loop (with_view env pre) (fetch_loop env pre (loop_entry env))"
    using pass_scans [of "with_view env pre"] init exists opened
    by (simp add: loop_entry_with_view fetch_loop_with_view with_view_fields)
  then have "appended (calls (snd (WixRemoveRegistryKeyEx (with_view env pre)))) =
          appended (calls (snd (fetch_loop env pre (loop_entry env))))"
    by (metis after_loop_appended prod.collapse)
  then show ?thesis
    using run failed rep rows by (simp add: LExit_fst LExit_appended)
qed

text \<open>A table with R1, then a rule without condition whose key cannot be read, then R2:
  the pass fails, and only the row of R1 was appended.\<close>

theorem failed_read_aborts_pass_witness:
  "\<not> FAILED (WcaInitialize aborting_engine) \<and> WcaTableExists aborting_engine = S_OK \<and>
   \<not> FAILED (fst (WcaOpenExecuteView aborting_engine)) \<and>
   snd (WcaOpenExecuteView aborting_engine) =
     [(S_OK, rule_R1)] @ (S_OK, rule_no_key) # [(S_OK, rule_R2)] \<and>
   fst (S_OK, rule_R1) = S_OK \<and>
   fatal_read aborting_engine rule_no_key \<and>
   fst (WixRemoveRegistryKeyEx aborting_engine) = ERROR_INSTALL_FAILURE \<and>
   reported (calls (snd (WixRemoveRegistryKeyEx aborting_engine))) = [ERROR_INSTALL_FAILURE] \<and>
   appended (calls (snd (WixRemoveRegistryKeyEx aborting_engine))) = [row_R1]"
proof -
  have h1: "\<not> FAILED (WcaInitialize aborting_engine)"
    by (simp add: aborting_engine_def example_engine_def not_FAILED_S_OK)
  have h2: "WcaTableExists aborting_engine = S_OK"
    by (simp add: aborting_engine_def example_engine_def)
  have h3: "\<not> FAILED (fst (WcaOpenExecuteView aborting_engine))"
    by (simp add: aborting_engine_def example_engine_def not_FAILED_S_OK)
  have h4: "snd (WcaOpenExecuteView aborting_engine) =
      [(S_OK, rule_R1)] @ (S_OK, rule_no_key) # [(S_OK, rule_R2)]"
    by (simp add: aborting_engine_def example_engine_def)
  have h5: "\<forall>x \<in> set [(S_OK, rule_R1)]. fst x = S_OK"
    by simp
  have h6: "fatal_read aborting_engine rule_no_key"
    by (simp add: fatal_read_def applicable_def condition_text_def rule_no_key_def rule_R1_def
        FAILED_E_FAIL)
  have w: "WcaFinalize aborting_engine ERROR_INSTALL_FAILURE = ERROR_INSTALL_FAILURE"
    by (simp add: aborting_engine_def example_engine_def)
  have p: "appended (calls (snd (WixRemoveRegistryKeyEx
      (with_view aborting_engine [(S_OK, rule_R1)])))) = [row_R1]"
    by code_simp
  show ?thesis
    using h1 h2 h3 h4 h5 h6 w p failed_read_aborts_pass [OF h1 h2 h3 h4 h5 h6] by simp
qed

text \<open>Claim C1 as it stands fails on a row that is skipped: the rule below has a false
  condition and a key (and a component, a root and a mode) that cannot be read, yet the
  pass reports success and appends the row of the rule that follows it.\<close>

theorem failed_read_on_skipped_row_counterexample:
  "WcaOpenExecuteView skipping_engine = (S_OK, [(S_OK, rule_unreadable), (S_OK, rule_R1)]) \<and>
   FAILED (fst (fKey rule_unreadable)) \<and>
   fst (WixRemoveRegistryKeyEx skipping_engine) = ERROR_SUCCESS \<and>
   reported (calls (snd (WixRemoveRegistryKeyEx skipping_engine))) = [ERROR_SUCCESS] \<and>
   appended (calls (snd (WixRemoveRegistryKeyEx skipping_engine))) = [row_R1]"
  by code_simp

text \<open>
  Claim C9, as amended. For every row whose condition is empty or evaluates to true, the
  key and the component must be readable: a failed read of either is a fatal error and
  the row is not processed. The strings read are not checked for emptiness. Stated on
  the loop in any state \<open>s\<close> in which it fetches the rule: the loop is left by a jump to
  \<^verbatim>\<open>LExit\<close> with a failed status whatever records follow, no staging-table call was added,
  and the status handed to \<^verbatim>\<open>WcaFinalize\<close> is \<^verbatim>\<open>ERROR_INSTALL_FAILURE\<close>.
\<close>

theorem missing_key_or_component_fatal:
  assumes id_ok: "\<not> FAILED (fst (fId r))"
    and cond_ok: "\<not> FAILED (fst (fCondition r))"
    and app: "applicable env r"
    and missing: "FAILED (fst (fKey r)) \<or> FAILED (fst (fComponent r))"
  shows "\<exists>s'. (\<forall>rest. fetch_loop env ((S_OK, r) # rest) s = (GotoLExit, s')) \<and>
           FAILED (hr s') \<and>
           filter is_staging (calls s') = filter is_staging (calls s) \<and>
           fst (after_loop env (GotoLExit, s')) = WcaFinalize env ERROR_INSTALL_FAILURE"
  using assms
  by (auto simp: applicable_def process_record_def translate_record_def after_loop_def LExit_fst
      Let_def emit_fields split_beta
      split: option.splits prod.splits)

text \<open>The rule without condition whose key cannot be read.\<close>

theorem missing_key_or_component_fatal_witness:
  "\<not> FAILED (fst (fId rule_no_key)) \<and> \<not> FAILED (fst (fCondition rule_no_key)) \<and>
   applicable (example_engine []) rule_no_key \<and>
   (FAILED (fst (fKey rule_no_key)) \<or> FAILED (fst (fComponent rule_no_key))) \<and>
   (\<exists>s'. (\<forall>rest. fetch_loop (example_engine []) ((S_OK, rule_no_key) # rest) init_locals =
              (GotoLExit, s')) \<and>
      FAILED (hr s') \<and> filter is_staging (calls s') = [] \<and>
      fst (after_loop (example_engine []) (GotoLExit, s')) = ERROR_INSTALL_FAILURE)"
proof -
  let ?E = "example_engine []"
  have h1: "\<not> FAILED (fst (fId rule_no_key))"
    by (simp add: rule_no_key_def rule_R1_def not_FAILED_S_OK)
  have h2: "\<not> FAILED (fst (fCondition rule_no_key))"
    by (simp add: rule_no_key_def rule_R1_def not_FAILED_S_OK)
  have h3: "applicable ?E rule_no_key"
    by (simp add: applicable_def condition_text_def rule_no_key_def rule_R1_def)
  have h4: "FAILED (fst (fKey rule_no_key)) \<or> FAILED (fst (fComponent rule_no_key))"
    by (simp add: rule_no_key_def FAILED_E_FAIL)
  have w: "WcaFinalize ?E ERROR_INSTALL_FAILURE = ERROR_INSTALL_FAILURE"
    by (simp add: example_engine_def)
  obtain s' where l: "\<forall>rest. fetch_loop ?E ((S_OK, rule_no_key) # rest) init_locals = (GotoLExit, s')"
    and f: "FAILED (hr s')"
    and st: "filter is_staging (calls s') = filter is_staging (calls init_locals)"
    and r: "fst (after_loop ?E (GotoLExit, s')) = WcaFinalize ?E ERROR_INSTALL_FAILURE"
    using missing_key_or_component_fatal [OF h1 h2 h3 h4, of init_locals] by blast
  have st': "filter is_staging (calls s') = []"
    using st by (simp add: init_locals_def)
  have r': "fst (after_loop ?E (GotoLExit, s')) = ERROR_INSTALL_FAILURE"
    using r w by simp
  show ?thesis
    using h1 h2 h3 h4 l f st' r' by blast
qed

text \<open>Claim C9 as it stands fails on a rule whose key and component are read with
  success as empty strings: the pass processes it like any other rule and appends a row
  with an empty key and an empty component.\<close>

theorem empty_key_is_processed_counterexample:
  "WcaOpenExecuteView empty_key_engine = (S_OK, [(S_OK, rule_empty_key)]) \<and>
   fKey rule_empty_key = (S_OK, Some []) \<and> fComponent rule_empty_key = (S_OK, Some []) \<and>
   fst (WixRemoveRegistryKeyEx empty_key_engine) = ERROR_SUCCESS \<and>
   appended (calls (snd (WixRemoveRegistryKeyEx empty_key_engine))) =
     [(''RemoveRegistry'', 5,
       [ArgStr (Some ''R1''), ArgInt 2, ArgStr (Some []), ArgStr (Some ''-''), ArgStr (Some [])])]"
  by code_simp

end
